theory Spec2Isabelle
  imports Main
begin

section \<open>Data model\<close>

text \<open>
  The controller \<^verbatim>\<open>server/controllers/moviesController.js\<close> works on two kinds of
  objects: the sub-documents of a user's collection document (\<^verbatim>\<open>movieCol.movies\<close>) and the
  items the catalog API returns (\<^verbatim>\<open>response.data.results\<close>). Both carry the external
  numeric ID in the field \<^verbatim>\<open>id\<close>.

  The schema of the collection document (\<^verbatim>\<open>models/movieModel\<close>) is not part of the
  sources at hand. The fields are the ones the controller writes and reads
  (\<^verbatim>\<open>id\<close>, \<^verbatim>\<open>poster_path\<close>, \<^verbatim>\<open>title\<close>, \<^verbatim>\<open>genres\<close>, \<^verbatim>\<open>status\<close>); the value the schema gives to
  \<^verbatim>\<open>status\<close> when the controller does not set it is a parameter (\<open>dflt\<close>) of the
  operation that creates a sub-document. Casting and validation by the schema are taken
  to be the identity, and the store itself is taken not to fail.
\<close>

type_synonym user_id = nat

record saved_item =
  movie_id :: int
  poster_path :: string
  title :: string
  movie_genres :: "string list"
  status :: string

record catalog_item =
  item_id :: int
  item_title :: string
  item_poster_path :: string
  item_genre_ids :: "int list"

text \<open>The store holds at most one collection document per user: \<^verbatim>\<open>findOne({ user: _id })\<close>
  is the lookup, \<^verbatim>\<open>save()\<close> the update of the map.\<close>

type_synonym store = "user_id \<rightharpoonup> saved_item list"

text \<open>
  What a handler does with the request: it either sends a JSON body with a status code
  (\<^verbatim>\<open>res.status(c).json(..)\<close>, 200 when \<^verbatim>\<open>res.json\<close> is called directly), or it hands a
  caught exception to \<^verbatim>\<open>next(error)\<close>. The error handler behind \<^verbatim>\<open>next\<close> is not in the
  controller.
\<close>

datatype error =
    Error string      \<comment> \<open>\<^verbatim>\<open>new Error(message)\<close>\<close>
  | TypeError         \<comment> \<open>property read on \<^verbatim>\<open>null\<close>\<close>
  | SyntaxError       \<comment> \<open>\<^verbatim>\<open>JSON.parse\<close> on malformed text\<close>
  | Upstream string   \<comment> \<open>a rejected catalog request\<close>

datatype body =
    Message bool string              \<comment> \<open>\<^verbatim>\<open>{ success, message }\<close>\<close>
  | Collection bool "saved_item list" \<comment> \<open>\<^verbatim>\<open>{ success, movies }\<close>\<close>
  | Items "catalog_item list"        \<comment> \<open>a bare array of catalog items\<close>

datatype response = Json nat body | Forward error

section \<open>Collection manager\<close>

text \<open>\<^verbatim>\<open>getMovieCollectionForUser\<close>: throws when \<^verbatim>\<open>findOne\<close> yields \<^verbatim>\<open>null\<close>.\<close>

definition getMovieCollectionForUser :: "store \<Rightarrow> user_id \<Rightarrow> error + saved_item list" where
  "getMovieCollectionForUser st uid =
     (case st uid of
        None \<Rightarrow> Inl (Error ''Movie collection not found'')
      | Some movieCol \<Rightarrow> Inr movieCol)"

definition getMovieCollection :: "store \<Rightarrow> user_id \<Rightarrow> response" where
  "getMovieCollection st uid =
     (case getMovieCollectionForUser st uid of
        Inl e \<Rightarrow> Forward e
      | Inr movieCol \<Rightarrow> Json 200 (Collection True movieCol))"

text \<open>\<^verbatim>\<open>addToMovieCollection\<close>: the request body is \<^verbatim>\<open>{ id, posterPath, title, genres }\<close>.
  The result is the response and the store after the call.\<close>

definition addToMovieCollection ::
  "string \<Rightarrow> store \<Rightarrow> user_id \<Rightarrow> int \<Rightarrow> string \<Rightarrow> string \<Rightarrow> string list \<Rightarrow> response \<times> store" where
  "addToMovieCollection dflt st uid mid posterPath ttl gs =
     (let movieCol = (case st uid of None \<Rightarrow> [] | Some ms \<Rightarrow> ms);
          alreadySaved = find (\<lambda>movie. title movie = ttl) movieCol
      in case alreadySaved of
           Some _ \<Rightarrow> (Json 400 (Message False ''Movie already exists in collection''), st)
         | None \<Rightarrow>
             (Json 200 (Message True ''Movie added to collection''),
              st(uid \<mapsto> movieCol @
                   [\<lparr>movie_id = mid, poster_path = posterPath, title = ttl,
                     movie_genres = gs, status = dflt\<rparr>])))"

text \<open>\<^verbatim>\<open>Array.prototype.findIndex\<close>, with \<open>None\<close> for the result \<^verbatim>\<open>-1\<close>.\<close>

fun findIndex :: "('a \<Rightarrow> bool) \<Rightarrow> 'a list \<Rightarrow> nat option" where
  "findIndex P [] = None"
| "findIndex P (x # xs) =
     (if P x then Some 0 else map_option Suc (findIndex P xs))"

text \<open>\<^verbatim>\<open>updateMovieStatus\<close>: \<^verbatim>\<open>find\<close> yields the first sub-document with the ID, the handler
  assigns its \<^verbatim>\<open>status\<close> in place and saves the document. The position of that
  sub-document is what \<open>findIndex\<close> computes.\<close>

definition updateMovieStatus ::
  "store \<Rightarrow> user_id \<Rightarrow> int \<Rightarrow> string \<Rightarrow> response \<times> store" where
  "updateMovieStatus st uid movieId new_status =
     (case getMovieCollectionForUser st uid of
        Inl e \<Rightarrow> (Forward e, st)
      | Inr movieCol \<Rightarrow>
          (case findIndex (\<lambda>movie. movie_id movie = movieId) movieCol of
             None \<Rightarrow> (Json 404 (Message False ''Movie not found in user's collection''), st)
           | Some i \<Rightarrow>
               (Json 200 (Message True ''Movie status updated''),
                st(uid \<mapsto> movieCol[i := (movieCol ! i)\<lparr>status := new_status\<rparr>]))))"

text \<open>\<^verbatim>\<open>deleteMovieFromCollection\<close>: \<^verbatim>\<open>splice(movieIndex, 1)\<close> drops the element at the
  index found.\<close>

definition deleteMovieFromCollection ::
  "store \<Rightarrow> user_id \<Rightarrow> int \<Rightarrow> response \<times> store" where
  "deleteMovieFromCollection st uid movieId =
     (case getMovieCollectionForUser st uid of
        Inl e \<Rightarrow> (Forward e, st)
      | Inr movieCol \<Rightarrow>
          (case findIndex (\<lambda>movie. movie_id movie = movieId) movieCol of
             None \<Rightarrow> (Json 404 (Message False ''Movie not found in user's collection''), st)
           | Some movieIndex \<Rightarrow>
               (Json 200 (Message True ''Movie removed from collection''),
                st(uid \<mapsto> take movieIndex movieCol @ drop (Suc movieIndex) movieCol))))"

section \<open>Recommendation aggregator\<close>

text \<open>
  An entry of the working genre list is a string (\<^verbatim>\<open>req.user.genres\<close> is an array of
  strings in \<^verbatim>\<open>userModel.js\<close>) or \<^verbatim>\<open>null\<close>. \<^verbatim>\<open>filter(Boolean)\<close> keeps the non-empty
  strings.
\<close>

datatype genre = Tag string | NullGenre

fun truthy :: "genre \<Rightarrow> bool" where
  "truthy (Tag s) = (s \<noteq> [])"
| "truthy NullGenre = False"

text \<open>
  The world around one run of the handler:
  \<^item> \<open>parse_id s\<close> is the text that \<^verbatim>\<open>JSON.parse(s).id\<close> puts into the request URL for a
    string \<open>s\<close>, or the exception the expression throws;
  \<^item> \<open>discover k g\<close> is the outcome of the discovery request with \<^verbatim>\<open>with_genres=g\<close>
    issued in pass \<open>k\<close> of the loop: the array \<^verbatim>\<open>response.data.results\<close>, or the
    rejection;
  \<^item> \<open>store_at k\<close> is the collection store as \<^verbatim>\<open>findOne\<close> reads it in pass \<open>k\<close>.

  Every request and every read of the store is taken to settle: a promise that stays
  pending for ever is outside this model.
\<close>

record world =
  parse_id :: "string \<Rightarrow> error + string"
  discover :: "nat \<Rightarrow> string \<Rightarrow> error + catalog_item list"
  store_at :: "nat \<Rightarrow> store"

text \<open>
  \<^verbatim>\<open>JSON.parse(genre).id\<close>. For \<^verbatim>\<open>null\<close> the argument is converted to the text
  \<^verbatim>\<open>"null"\<close>, which parses to \<^verbatim>\<open>null\<close>, and reading \<^verbatim>\<open>.id\<close> of \<^verbatim>\<open>null\<close> throws a
  TypeError.
\<close>

fun genre_param :: "world \<Rightarrow> genre \<Rightarrow> error + string" where
  "genre_param w (Tag s) = parse_id w s"
| "genre_param w NullGenre = Inl TypeError"

text \<open>
  \<^verbatim>\<open>genres.map(cb)\<close> with a callback that may throw: the callback runs on the entries in
  order; the result is the list of values produced before the first exception, and that
  exception if there is one. Each value produced here is one request issued.
\<close>

fun map_throw :: "('a \<Rightarrow> error + 'b) \<Rightarrow> 'a list \<Rightarrow> 'b list \<times> error option" where
  "map_throw f [] = ([], None)"
| "map_throw f (x # xs) =
     (case f x of
        Inl e \<Rightarrow> ([], Some e)
      | Inr y \<Rightarrow> (case map_throw f xs of (ys, r) \<Rightarrow> (y # ys, r)))"

text \<open>\<^verbatim>\<open>Promise.all\<close>: all results, or a rejection when one request is rejected (the
  first one in list order is taken here).\<close>

fun promise_all :: "(error + 'a) list \<Rightarrow> error + 'a list" where
  "promise_all [] = Inr []"
| "promise_all (Inl e # ps) = Inl e"
| "promise_all (Inr x # ps) =
     (case promise_all ps of Inl e \<Rightarrow> Inl e | Inr xs \<Rightarrow> Inr (x # xs))"

definition maxMovies :: nat where
  "maxMovies = 20"

text \<open>The variables of the loop, the number of passes completed, and the log of the
  discovery requests issued so far (their \<^verbatim>\<open>with_genres\<close> values).\<close>

record loop_state =
  recommendedMovies :: "catalog_item list"
  genres :: "genre list"
  moviesPerGenre :: nat
  pass :: nat
  calls :: "string list"

definition userMovieIds :: "store \<Rightarrow> user_id \<Rightarrow> int list" where
  "userMovieIds st uid = (case st uid of Some ms \<Rightarrow> map movie_id ms | None \<Rightarrow> [])"

text \<open>\<^verbatim>\<open>filteredMovies\<close> of one pass: the candidates whose ID is neither saved by the
  user nor found in the list accumulated before this pass.\<close>

definition filteredMovies ::
  "int list \<Rightarrow> catalog_item list \<Rightarrow> catalog_item list \<Rightarrow> catalog_item list" where
  "filteredMovies ids recommended movies =
     filter (\<lambda>movie. item_id movie \<notin> set ids \<and>
                     find (\<lambda>recMovie. item_id recMovie = item_id movie) recommended = None)
            movies"

text \<open>One pass through the body of the \<^verbatim>\<open>while\<close> loop. An exception leaves the loop and
  the handler's \<^verbatim>\<open>try\<close> block; it is returned with the log of requests at that point.\<close>

definition loop_body :: "world \<Rightarrow> user_id \<Rightarrow> loop_state \<Rightarrow> (error \<times> string list) + loop_state" where
  "loop_body w uid s =
     (case map_throw (genre_param w) (genres s) of (params, thrown) \<Rightarrow>
        (case thrown of
           Some e \<Rightarrow> Inl (e, calls s @ params)
         | None \<Rightarrow>
             (case promise_all (map (discover w (pass s)) params) of
                Inl e \<Rightarrow> Inl (e, calls s @ params)
              | Inr moviesResponses \<Rightarrow>
                  (let movies = concat (map (take (moviesPerGenre s)) moviesResponses);
                       ids = userMovieIds (store_at w (pass s)) uid;
                       filtered = filteredMovies ids (recommendedMovies s) movies;
                       recommended = take maxMovies (recommendedMovies s @ filtered)
                   in Inr \<lparr>recommendedMovies = recommended,
                          genres = (if length filtered = 0 then genres s @ [NullGenre] else genres s),
                          moviesPerGenre = (if length filtered = 0 then 5 else 10),
                          pass = Suc (pass s),
                          calls = calls s @ params\<rparr>))))"

text \<open>The \<^verbatim>\<open>while\<close> loop. Nothing in its definition says that it ends: \<open>None\<close> is the
  value of a run that does not.\<close>

partial_function (option) recommend_loop ::
  "world \<Rightarrow> user_id \<Rightarrow> loop_state \<Rightarrow> ((error \<times> string list) + loop_state) option" where
  "recommend_loop w uid s =
     (if length (recommendedMovies s) < maxMovies \<and> length (genres s) < 20
      then (case loop_body w uid s of
              Inl e \<Rightarrow> Some (Inl e)
            | Inr s' \<Rightarrow> recommend_loop w uid s')
      else Some (Inr s))"

declare recommend_loop.simps [code]

definition initial_state :: "genre list \<Rightarrow> loop_state" where
  "initial_state user_genres =
     \<lparr>recommendedMovies = [], genres = filter truthy user_genres, moviesPerGenre = 10,
      pass = 0, calls = []\<rparr>"

text \<open>\<^verbatim>\<open>recommendMoviesByGenre\<close>: the response, and the discovery requests issued.\<close>

definition recommendMoviesByGenre ::
  "world \<Rightarrow> user_id \<Rightarrow> genre list \<Rightarrow> (response \<times> string list) option" where
  "recommendMoviesByGenre w uid user_genres =
     (case recommend_loop w uid (initial_state user_genres) of
        None \<Rightarrow> None
      | Some (Inl (e, cs)) \<Rightarrow> Some (Forward e, cs)
      | Some (Inr s) \<Rightarrow>
          Some (if length (recommendedMovies s) = 0
                then Json 400 (Message False ''No recommended movies found'')
                else Json 200 (Items (recommendedMovies s)),
                calls s))"

section \<open>Sample data\<close>

text \<open>Concrete collections, genre tags and catalogs on which the operations are run
  below.\<close>

definition inception :: saved_item where
  "inception = \<lparr>movie_id = 27205, poster_path = ''/inception.jpg'', title = ''Inception'',
     movie_genres = [''Action''], status = ''to-watch''\<rparr>"

definition heat :: saved_item where
  "heat = \<lparr>movie_id = 949, poster_path = ''/heat.jpg'', title = ''Heat'',
     movie_genres = [''Crime''], status = ''watched''\<rparr>"

definition sample_store :: store where
  "sample_store = [7 \<mapsto> [inception, heat]]"

text \<open>The genre tags \<^verbatim>\<open>{"id":28}\<close>, \<^verbatim>\<open>{"id":12}\<close> and \<^verbatim>\<open>{"id":35}\<close> as stored in
  \<^verbatim>\<open>user.genres\<close>, and what \<^verbatim>\<open>JSON.parse(..).id\<close> makes of them.\<close>

definition genre_tag :: "string \<Rightarrow> string" where
  "genre_tag n = ''{'' @ [CHR 0x22] @ ''id'' @ [CHR 0x22] @ '':'' @ n @ ''}''"

definition action_tag :: string where
  "action_tag = genre_tag ''28''"

definition adventure_tag :: string where
  "adventure_tag = genre_tag ''12''"

definition comedy_tag :: string where
  "comedy_tag = genre_tag ''35''"

definition parse_sample :: "string \<Rightarrow> error + string" where
  "parse_sample s =
     (if s = action_tag then Inr ''28''
      else if s = adventure_tag then Inr ''12''
      else if s = comedy_tag then Inr ''35''
      else Inl SyntaxError)"

text \<open>Catalog items with the IDs \<open>a, \<dots>, b - 1\<close>.\<close>

definition catalog_range :: "nat \<Rightarrow> nat \<Rightarrow> catalog_item list" where
  "catalog_range a b =
     map (\<lambda>i. \<lparr>item_id = int i, item_title = ''Movie'', item_poster_path = ''/poster.jpg'',
               item_genre_ids = [28, 12]\<rparr>) [a..<b]"

text \<open>A catalog whose answer to every discovery request is the same ten items (films
  that carry both genres), and a user who has saved nothing.\<close>

definition overlap_world :: world where
  "overlap_world =
     \<lparr>parse_id = parse_sample,
      discover = (\<lambda>k g. Inr (catalog_range 1 11)),
      store_at = (\<lambda>k. Map.empty)\<rparr>"

text \<open>A catalog with ten items of their own for each of three genres, and user 7 who has
  saved the item with ID 3.\<close>

definition saved_three :: saved_item where
  "saved_three = \<lparr>movie_id = 3, poster_path = ''/poster.jpg'', title = ''Movie'',
     movie_genres = [''Action''], status = ''watched''\<rparr>"

definition three_genre_world :: world where
  "three_genre_world =
     \<lparr>parse_id = parse_sample,
      discover = (\<lambda>k g. Inr (if g = ''28'' then catalog_range 1 11
                              else if g = ''12'' then catalog_range 11 21
                              else catalog_range 21 31)),
      store_at = (\<lambda>k. [7 \<mapsto> [saved_three]])\<rparr>"

text \<open>The loop variables after the one pass that run makes for a user with the action and
  the adventure tag.\<close>

definition full_after_one_pass :: loop_state where
  "full_after_one_pass =
     \<lparr>recommendedMovies = catalog_range 1 11 @ catalog_range 1 11,
      genres = [Tag action_tag, Tag adventure_tag], moviesPerGenre = 10,
      pass = 1, calls = [''28'', ''12'']\<rparr>"

text \<open>The loop variables of the run for a user with the action tag alone, on the same
  catalog: after the first pass, which takes the ten items, and after the second, which
  finds nothing new.\<close>

definition after_first_pass :: loop_state where
  "after_first_pass =
     \<lparr>recommendedMovies = catalog_range 1 11, genres = [Tag action_tag],
      moviesPerGenre = 10, pass = 1, calls = [''28'']\<rparr>"

definition stalled_after_two_passes :: loop_state where
  "stalled_after_two_passes =
     \<lparr>recommendedMovies = catalog_range 1 11, genres = [Tag action_tag, NullGenre],
      moviesPerGenre = 5, pass = 2, calls = [''28'', ''28'']\<rparr>"

text \<open>The number of passes the loop can still make is bounded by the room left in the two
  lists its condition reads.\<close>

definition remaining :: "loop_state \<Rightarrow> nat" where
  "remaining s = (maxMovies - length (recommendedMovies s)) + (20 - length (genres s))"

section \<open>Properties of the collection manager\<close>

lemma findIndex_None: "findIndex P xs = None \<longleftrightarrow> (\<forall>x \<in> set xs. \<not> P x)"
  by (induction xs) auto

lemma findIndex_Some:
  "findIndex P xs = Some i \<Longrightarrow> i < length xs \<and> P (xs ! i) \<and> (\<forall>j < i. \<not> P (xs ! j))"
proof (induction xs arbitrary: i)
  case Nil
  then show ?case by simp
next
  case (Cons x xs)
  show ?case
  proof (cases "P x")
    case True
    with Cons.prems show ?thesis by simp
  next
    case False
    with Cons.prems obtain k where k: "findIndex P xs = Some k" "i = Suc k"
      by auto
    from Cons.IH [OF k(1)] False k(2) show ?thesis
      by (auto simp: less_Suc_eq_0_disj)
  qed
qed

lemma find_title_Some:
  "m \<in> set ms \<Longrightarrow> title m = ttl \<Longrightarrow> \<exists>y. find (\<lambda>movie. title movie = ttl) ms = Some y"
  by (cases "find (\<lambda>movie. title movie = ttl) ms") (auto simp: find_None_iff)

lemma splice_keeps_others:
  assumes "findIndex P xs = Some i"
  shows "filter (\<lambda>x. \<not> P x) (take i xs @ drop (Suc i) xs) = filter (\<lambda>x. \<not> P x) xs"
    and "length (filter P (take i xs @ drop (Suc i) xs)) = length (filter P xs) - 1"
    and "Suc (length (take i xs @ drop (Suc i) xs)) = length xs"
proof -
  from findIndex_Some [OF assms] have i: "i < length xs" and p: "P (xs ! i)" by simp_all
  from i have split: "xs = take i xs @ xs ! i # drop (Suc i) xs"
    by (rule id_take_nth_drop)
  have "filter (\<lambda>x. \<not> P x) xs = filter (\<lambda>x. \<not> P x) (take i xs @ xs ! i # drop (Suc i) xs)"
    using split by simp
  also have "\<dots> = filter (\<lambda>x. \<not> P x) (take i xs @ drop (Suc i) xs)"
    using p by simp
  finally show "filter (\<lambda>x. \<not> P x) (take i xs @ drop (Suc i) xs) = filter (\<lambda>x. \<not> P x) xs"
    by simp
  have "length (filter P xs) = length (filter P (take i xs @ xs ! i # drop (Suc i) xs))"
    using split by simp
  also have "\<dots> = Suc (length (filter P (take i xs @ drop (Suc i) xs)))"
    using p by simp
  finally show "length (filter P (take i xs @ drop (Suc i) xs)) = length (filter P xs) - 1"
    by simp
  from i show "Suc (length (take i xs @ drop (Suc i) xs)) = length xs"
    by simp
qed

lemma findIndex_present:
  "filter P xs \<noteq> [] \<Longrightarrow> \<exists>i. findIndex P xs = Some i"
  by (cases "findIndex P xs") (auto simp: findIndex_None filter_empty_conv)

lemma findIndex_absent:
  "filter P xs = [] \<Longrightarrow> findIndex P xs = None"
  by (auto simp: findIndex_None filter_empty_conv)

text \<open>
  \<^bold>\<open>C3.\<close> When the user's collection holds an item with the title of the request,
  \<^verbatim>\<open>addToMovieCollection\<close> answers 400 with \<^verbatim>\<open>success: false\<close> and the message
  \<^verbatim>\<open>Movie already exists in collection\<close>, and the store after the call is the store before
  it: nothing is appended and nothing is saved.
\<close>

theorem add_duplicate_title_conflict:
  assumes "st uid = Some ms" and "m \<in> set ms" and "title m = ttl"
  shows "addToMovieCollection dflt st uid mid posterPath ttl gs =
           (Json 400 (Message False ''Movie already exists in collection''), st)"
proof -
  from find_title_Some [OF assms(2,3)] obtain y
    where "find (\<lambda>movie. title movie = ttl) ms = Some y" ..
  with assms(1) show ?thesis
    by (simp add: addToMovieCollection_def)
qed

text \<open>User 7 holds \<^verbatim>\<open>Inception\<close> and \<^verbatim>\<open>Heat\<close>; a second \<^verbatim>\<open>Heat\<close>, under another ID, is
  refused.\<close>

theorem add_duplicate_title_conflict_witness:
  "sample_store 7 = Some [inception, heat] \<and> heat \<in> set [inception, heat] \<and> title heat = ''Heat'' \<and>
   addToMovieCollection ''to-watch'' sample_store 7 11 ''/other.jpg'' ''Heat'' [] =
     (Json 400 (Message False ''Movie already exists in collection''), sample_store)"
proof -
  have a: "sample_store 7 = Some [inception, heat]" by (simp add: sample_store_def)
  have b: "heat \<in> set [inception, heat]" by simp
  have c: "title heat = ''Heat''" by (simp add: heat_def)
  from add_duplicate_title_conflict
         [of sample_store 7 "[inception, heat]" heat "''Heat''" "''to-watch''" 11 "''/other.jpg''" "[]"]
       a b c
  show ?thesis by blast
qed

text \<open>
  \<^bold>\<open>C9.\<close> When no item of the user's collection has the title of the request (the user may
  have no collection yet), \<^verbatim>\<open>addToMovieCollection\<close> answers 200 with \<^verbatim>\<open>success: true\<close>, and
  \<^verbatim>\<open>getMovieCollection\<close> on the store it leaves answers with the earlier items followed by
  the new one, whose id, title, poster path and genres are those of the request and whose
  status is the schema's default.
\<close>

theorem add_then_get_roundtrip:
  assumes "\<forall>m \<in> set (case st uid of None \<Rightarrow> [] | Some ms \<Rightarrow> ms). title m \<noteq> ttl"
  shows "fst (addToMovieCollection dflt st uid mid posterPath ttl gs) =
           Json 200 (Message True ''Movie added to collection'') \<and>
         getMovieCollection (snd (addToMovieCollection dflt st uid mid posterPath ttl gs)) uid =
           Json 200 (Collection True
             ((case st uid of None \<Rightarrow> [] | Some ms \<Rightarrow> ms) @
              [\<lparr>movie_id = mid, poster_path = posterPath, title = ttl,
                movie_genres = gs, status = dflt\<rparr>]))"
proof -
  from assms have "find (\<lambda>movie. title movie = ttl)
      (case st uid of None \<Rightarrow> [] | Some ms \<Rightarrow> ms) = None"
    by (cases "st uid") (auto simp: find_None_iff)
  then show ?thesis
    by (simp add: addToMovieCollection_def getMovieCollection_def
                  getMovieCollectionForUser_def)
qed

text \<open>\<^verbatim>\<open>Pulp Fiction\<close> is added to the collection of user 7 and read back.\<close>

theorem add_then_get_roundtrip_witness:
  "fst (addToMovieCollection ''to-watch'' sample_store 7 680 ''/pulp.jpg'' ''Pulp Fiction'' [''Crime'']) =
     Json 200 (Message True ''Movie added to collection'') \<and>
   getMovieCollection
     (snd (addToMovieCollection ''to-watch'' sample_store 7 680 ''/pulp.jpg'' ''Pulp Fiction'' [''Crime''])) 7 =
     Json 200 (Collection True
       [inception, heat,
        \<lparr>movie_id = 680, poster_path = ''/pulp.jpg'', title = ''Pulp Fiction'',
          movie_genres = [''Crime''], status = ''to-watch''\<rparr>])"
proof -
  have a: "\<forall>m \<in> set (case sample_store 7 of None \<Rightarrow> [] | Some ms \<Rightarrow> ms). title m \<noteq> ''Pulp Fiction''"
    by (simp add: sample_store_def inception_def heat_def)
  have b: "sample_store 7 = Some [inception, heat]" by (simp add: sample_store_def)
  from add_then_get_roundtrip
         [of sample_store 7 "''Pulp Fiction''" "''to-watch''" 680 "''/pulp.jpg''" "[''Crime'']", OF a]
  show ?thesis by (simp add: b)
qed

text \<open>
  \<^bold>\<open>C7.\<close> When the user has a collection and no item of it carries the requested ID,
  \<^verbatim>\<open>updateMovieStatus\<close> answers 404 with \<^verbatim>\<open>success: false\<close>, the store is the one before the
  call, and \<^verbatim>\<open>getMovieCollection\<close> afterwards returns the collection as it was. When the user
  has no collection, the handler fails as well and the store is untouched: the helper throws
  \<^verbatim>\<open>Error('Movie collection not found')\<close>, which the handler passes to \<^verbatim>\<open>next\<close>.
\<close>

theorem update_status_not_found:
  "(st uid = Some ms \<and> movieId \<notin> movie_id ` set ms \<longrightarrow>
      updateMovieStatus st uid movieId new_status =
        (Json 404 (Message False ''Movie not found in user's collection''), st) \<and>
      getMovieCollection (snd (updateMovieStatus st uid movieId new_status)) uid =
        Json 200 (Collection True ms)) \<and>
   (st uid = None \<longrightarrow>
      updateMovieStatus st uid movieId new_status =
        (Forward (Error ''Movie collection not found''), st))"
proof (intro conjI impI)
  assume a: "st uid = Some ms \<and> movieId \<notin> movie_id ` set ms"
  then have "findIndex (\<lambda>movie. movie_id movie = movieId) ms = None"
    by (auto simp: findIndex_None)
  with a show r: "updateMovieStatus st uid movieId new_status =
        (Json 404 (Message False ''Movie not found in user's collection''), st)"
    by (simp add: updateMovieStatus_def getMovieCollectionForUser_def)
  from a show "getMovieCollection (snd (updateMovieStatus st uid movieId new_status)) uid =
        Json 200 (Collection True ms)"
    by (simp add: r getMovieCollection_def getMovieCollectionForUser_def)
next
  assume "st uid = None"
  then show "updateMovieStatus st uid movieId new_status =
        (Forward (Error ''Movie collection not found''), st)"
    by (simp add: updateMovieStatus_def getMovieCollectionForUser_def)
qed

text \<open>ID 550 is not in the collection of user 7; user 8 has no collection.\<close>

theorem update_status_not_found_witness:
  "updateMovieStatus sample_store 7 550 ''watched'' =
     (Json 404 (Message False ''Movie not found in user's collection''), sample_store) \<and>
   getMovieCollection (snd (updateMovieStatus sample_store 7 550 ''watched'')) 7 =
     Json 200 (Collection True [inception, heat]) \<and>
   updateMovieStatus sample_store 8 550 ''watched'' =
     (Forward (Error ''Movie collection not found''), sample_store)"
proof -
  have a: "sample_store 7 = Some [inception, heat] \<and> 550 \<notin> movie_id ` set [inception, heat]"
    by (simp add: sample_store_def inception_def heat_def)
  have b: "sample_store 8 = None" by (simp add: sample_store_def)
  from update_status_not_found [of sample_store 7 "[inception, heat]" 550 "''watched''"]
       update_status_not_found [of sample_store 8 "[]" 550 "''watched''"] a b
  show ?thesis by blast
qed

text \<open>
  \<^bold>\<open>C8.\<close> When exactly one item of the user's collection carries the requested ID, a first
  \<^verbatim>\<open>deleteMovieFromCollection\<close> answers 200 with \<^verbatim>\<open>success: true\<close>, and a second one, on the
  store the first left, answers 404 and changes nothing. Whatever the call does, the items
  with any other ID stay in the collection, in their order, at most one item goes, and the
  collections of other users are not touched.
\<close>

theorem remove_twice_and_frame:
  "(st uid = Some ms \<and> length (filter (\<lambda>movie. movie_id movie = movieId) ms) = 1 \<longrightarrow>
      fst (deleteMovieFromCollection st uid movieId) =
        Json 200 (Message True ''Movie removed from collection'') \<and>
      deleteMovieFromCollection (snd (deleteMovieFromCollection st uid movieId)) uid movieId =
        (Json 404 (Message False ''Movie not found in user's collection''),
         snd (deleteMovieFromCollection st uid movieId))) \<and>
   (st uid = Some ms \<longrightarrow>
      (\<exists>ms'. snd (deleteMovieFromCollection st uid movieId) uid = Some ms' \<and>
         filter (\<lambda>movie. movie_id movie \<noteq> movieId) ms' =
         filter (\<lambda>movie. movie_id movie \<noteq> movieId) ms \<and>
         length ms \<le> Suc (length ms'))) \<and>
   (other \<noteq> uid \<longrightarrow> snd (deleteMovieFromCollection st uid movieId) other = st other)"
proof (intro conjI impI)
  let ?P = "\<lambda>movie. movie_id movie = movieId"
  assume a: "st uid = Some ms \<and> length (filter ?P ms) = 1"
  then have "filter ?P ms \<noteq> []" by auto
  from findIndex_present [OF this] obtain i where i: "findIndex ?P ms = Some i" ..
  let ?ms' = "take i ms @ drop (Suc i) ms"
  from a i have del: "deleteMovieFromCollection st uid movieId =
      (Json 200 (Message True ''Movie removed from collection''), st(uid \<mapsto> ?ms'))"
    by (simp add: deleteMovieFromCollection_def getMovieCollectionForUser_def)
  then show "fst (deleteMovieFromCollection st uid movieId) =
        Json 200 (Message True ''Movie removed from collection'')" by simp
  from splice_keeps_others(2) [OF i] a have "filter ?P ?ms' = []" by simp
  then have "findIndex ?P ?ms' = None" by (rule findIndex_absent)
  then show "deleteMovieFromCollection (snd (deleteMovieFromCollection st uid movieId)) uid movieId =
        (Json 404 (Message False ''Movie not found in user's collection''),
         snd (deleteMovieFromCollection st uid movieId))"
    by (simp add: del) (simp add: deleteMovieFromCollection_def getMovieCollectionForUser_def)
next
  let ?P = "\<lambda>movie. movie_id movie = movieId"
  assume a: "st uid = Some ms"
  show "\<exists>ms'. snd (deleteMovieFromCollection st uid movieId) uid = Some ms' \<and>
         filter (\<lambda>movie. movie_id movie \<noteq> movieId) ms' =
         filter (\<lambda>movie. movie_id movie \<noteq> movieId) ms \<and>
         length ms \<le> Suc (length ms')"
  proof (cases "findIndex ?P ms")
    case None
    with a show ?thesis
      by (simp add: deleteMovieFromCollection_def getMovieCollectionForUser_def)
  next
    case (Some i)
    from splice_keeps_others(1,3) [OF Some] a Some show ?thesis
      by (simp add: deleteMovieFromCollection_def getMovieCollectionForUser_def)
  qed
next
  assume "other \<noteq> uid"
  then show "snd (deleteMovieFromCollection st uid movieId) other = st other"
    by (simp add: deleteMovieFromCollection_def getMovieCollectionForUser_def
             split: option.splits)
qed

text \<open>\<^verbatim>\<open>Heat\<close> (ID 949) is removed twice from the collection of user 7.\<close>

theorem remove_twice_and_frame_witness:
  "fst (deleteMovieFromCollection sample_store 7 949) =
     Json 200 (Message True ''Movie removed from collection'') \<and>
   deleteMovieFromCollection (snd (deleteMovieFromCollection sample_store 7 949)) 7 949 =
     (Json 404 (Message False ''Movie not found in user's collection''),
      snd (deleteMovieFromCollection sample_store 7 949)) \<and>
   (\<exists>ms'. snd (deleteMovieFromCollection sample_store 7 949) 7 = Some ms' \<and>
      filter (\<lambda>movie. movie_id movie \<noteq> 949) ms' =
      filter (\<lambda>movie. movie_id movie \<noteq> 949) [inception, heat] \<and>
      length [inception, heat] \<le> Suc (length ms')) \<and>
   snd (deleteMovieFromCollection sample_store 7 949) 8 = sample_store 8"
proof -
  have a: "sample_store 7 = Some [inception, heat]" by (simp add: sample_store_def)
  have b: "length (filter (\<lambda>movie. movie_id movie = 949) [inception, heat]) = 1"
    by (simp add: inception_def heat_def)
  have c: "(8::nat) \<noteq> 7" by simp
  from remove_twice_and_frame [of sample_store 7 "[inception, heat]" 949 8] a b c
  show ?thesis by blast
qed

section \<open>Properties of the recommendation loop\<close>

lemma map_throw_None:
  "map_throw f xs = (ys, None) \<Longrightarrow> map f xs = map Inr ys"
proof (induction xs arbitrary: ys)
  case Nil
  then show ?case by simp
next
  case (Cons x xs)
  then show ?case
    by (auto split: sum.splits prod.splits)
qed

lemma promise_all_Inr:
  "promise_all (map f gs) = Inr rs \<Longrightarrow> r \<in> set rs \<Longrightarrow> \<exists>g \<in> set gs. f g = Inr r"
proof (induction gs arbitrary: rs)
  case Nil
  then show ?case by simp
next
  case (Cons g gs)
  show ?case
  proof (cases "f g")
    case (Inl e)
    with Cons.prems show ?thesis by simp
  next
    case (Inr x)
    with Cons.prems obtain xs where xs: "promise_all (map f gs) = Inr xs" "rs = x # xs"
      by (auto split: sum.splits)
    with Cons.prems(2) have "r = x \<or> r \<in> set xs" by simp
    then show ?thesis
    proof
      assume "r = x"
      with Inr show ?thesis by simp
    next
      assume "r \<in> set xs"
      from Cons.IH [OF xs(1) this] show ?thesis by auto
    qed
  qed
qed

text \<open>What a pass that completes leaves behind.\<close>

lemma loop_body_Inr:
  assumes "loop_body w uid s = Inr s'"
  obtains params moviesResponses where
    "map_throw (genre_param w) (genres s) = (params, None)"
    "promise_all (map (discover w (pass s)) params) = Inr moviesResponses"
    "s' = (let movies = concat (map (take (moviesPerGenre s)) moviesResponses);
               filtered = filteredMovies (userMovieIds (store_at w (pass s)) uid)
                            (recommendedMovies s) movies
           in \<lparr>recommendedMovies = take maxMovies (recommendedMovies s @ filtered),
               genres = (if length filtered = 0 then genres s @ [NullGenre] else genres s),
               moviesPerGenre = (if length filtered = 0 then 5 else 10),
               pass = Suc (pass s),
               calls = calls s @ params\<rparr>)"
  using assms unfolding loop_body_def
  by (auto split: prod.splits option.splits sum.splits simp: Let_def)

lemma loop_body_pass: "loop_body w uid a = Inr b \<Longrightarrow> pass b = Suc (pass a)"
  by (erule loop_body_Inr) (simp add: Let_def)

lemma loop_body_length:
  "loop_body w uid a = Inr b \<Longrightarrow> length (recommendedMovies b) \<le> maxMovies"
  by (erule loop_body_Inr) (simp add: Let_def del: take_append)

text \<open>The widening policy of a pass that completes: without new candidates the working
  list grows by \<^verbatim>\<open>null\<close> and the fetch count is 5, otherwise the list stays and the count
  is 10.\<close>

lemma loop_body_widening:
  assumes "loop_body w uid a = Inr b" and "length (recommendedMovies a) < maxMovies"
  shows "(recommendedMovies b = recommendedMovies a \<and> genres b = genres a @ [NullGenre] \<and>
            moviesPerGenre b = 5) \<or>
         (length (recommendedMovies a) < length (recommendedMovies b) \<and>
            genres b = genres a \<and> moviesPerGenre b = 10)"
proof -
  from assms(1) obtain params moviesResponses where
    b: "b = (let movies = concat (map (take (moviesPerGenre a)) moviesResponses);
               filtered = filteredMovies (userMovieIds (store_at w (pass a)) uid)
                            (recommendedMovies a) movies
           in \<lparr>recommendedMovies = take maxMovies (recommendedMovies a @ filtered),
               genres = (if length filtered = 0 then genres a @ [NullGenre] else genres a),
               moviesPerGenre = (if length filtered = 0 then 5 else 10),
               pass = Suc (pass a),
               calls = calls a @ params\<rparr>)"
    by (rule loop_body_Inr)
  define filtered where "filtered = filteredMovies (userMovieIds (store_at w (pass a)) uid)
      (recommendedMovies a) (concat (map (take (moviesPerGenre a)) moviesResponses))"
  from b have r: "recommendedMovies b = take maxMovies (recommendedMovies a @ filtered)"
    and g: "genres b = (if filtered = [] then genres a @ [NullGenre] else genres a)"
    and n: "moviesPerGenre b = (if filtered = [] then 5 else 10)"
    by (simp_all add: Let_def filtered_def [symmetric] del: take_append)
  show ?thesis
  proof (cases "filtered = []")
    case True
    with r g n assms(2) show ?thesis by simp
  next
    case False
    then have pos: "0 < length filtered" by simp
    from r have "length (recommendedMovies b) =
        min (length (recommendedMovies a) + length filtered) maxMovies"
      by (simp only: length_take length_append)
    with pos assms(2) have "length (recommendedMovies a) < length (recommendedMovies b)"
      by arith
    with g n False show ?thesis by simp
  qed
qed

lemma loop_body_new_items:
  assumes "loop_body w uid a = Inr b" and "m \<in> set (recommendedMovies b)"
  shows "m \<in> set (recommendedMovies a) \<or>
         ((\<exists>g rs. discover w (pass a) g = Inr rs \<and> m \<in> set rs) \<and>
          item_id m \<notin> set (userMovieIds (store_at w (pass a)) uid))"
proof -
  from assms(1) obtain params moviesResponses where
    resp: "promise_all (map (discover w (pass a)) params) = Inr moviesResponses"
    and b: "b = (let movies = concat (map (take (moviesPerGenre a)) moviesResponses);
               filtered = filteredMovies (userMovieIds (store_at w (pass a)) uid)
                            (recommendedMovies a) movies
           in \<lparr>recommendedMovies = take maxMovies (recommendedMovies a @ filtered),
               genres = (if length filtered = 0 then genres a @ [NullGenre] else genres a),
               moviesPerGenre = (if length filtered = 0 then 5 else 10),
               pass = Suc (pass a),
               calls = calls a @ params\<rparr>)"
    by (rule loop_body_Inr)
  define movies where "movies = concat (map (take (moviesPerGenre a)) moviesResponses)"
  define filtered where "filtered = filteredMovies (userMovieIds (store_at w (pass a)) uid)
      (recommendedMovies a) movies"
  from b have "recommendedMovies b = take maxMovies (recommendedMovies a @ filtered)"
    by (simp add: Let_def filtered_def movies_def del: take_append)
  with assms(2) have "m \<in> set (recommendedMovies a @ filtered)"
    by (auto dest: in_set_takeD simp del: take_append)
  then have "m \<in> set (recommendedMovies a) \<or> m \<in> set filtered" by simp
  then show ?thesis
  proof
    assume "m \<in> set (recommendedMovies a)"
    then show ?thesis ..
  next
    assume "m \<in> set filtered"
    then have unsaved: "item_id m \<notin> set (userMovieIds (store_at w (pass a)) uid)"
      and "m \<in> set movies"
      by (simp_all add: filtered_def filteredMovies_def)
    then obtain rs where rs: "rs \<in> set moviesResponses" "m \<in> set (take (moviesPerGenre a) rs)"
      by (auto simp: movies_def)
    from promise_all_Inr [OF resp rs(1)] obtain g where "discover w (pass a) g = Inr rs"
      by blast
    moreover from rs(2) have "m \<in> set rs" by (rule in_set_takeD)
    ultimately show ?thesis using unsaved by blast
  qed
qed

lemma loop_body_decreases:
  assumes "loop_body w uid s = Inr s'"
    and "length (recommendedMovies s) < maxMovies" and "length (genres s) < 20"
  shows "Suc (remaining s') \<le> remaining s"
proof -
  from assms(1) obtain params moviesResponses where
    s': "s' = (let movies = concat (map (take (moviesPerGenre s)) moviesResponses);
               filtered = filteredMovies (userMovieIds (store_at w (pass s)) uid)
                            (recommendedMovies s) movies
           in \<lparr>recommendedMovies = take maxMovies (recommendedMovies s @ filtered),
               genres = (if length filtered = 0 then genres s @ [NullGenre] else genres s),
               moviesPerGenre = (if length filtered = 0 then 5 else 10),
               pass = Suc (pass s),
               calls = calls s @ params\<rparr>)"
    by (rule loop_body_Inr)
  define filtered where "filtered = filteredMovies (userMovieIds (store_at w (pass s)) uid)
      (recommendedMovies s) (concat (map (take (moviesPerGenre s)) moviesResponses))"
  from s' have "recommendedMovies s' = take maxMovies (recommendedMovies s @ filtered)"
    by (simp add: Let_def filtered_def [symmetric] del: take_append)
  then have r: "length (recommendedMovies s') =
      min (length (recommendedMovies s) + length filtered) maxMovies"
    by (simp only: length_take length_append)
  from s' have g: "length (genres s') =
      (if filtered = [] then Suc (length (genres s)) else length (genres s))"
    by (simp add: Let_def filtered_def [symmetric] del: take_append)
  show ?thesis
  proof (cases "filtered = []")
    case True
    with r g assms(2,3) show ?thesis
      unfolding remaining_def by simp
  next
    case False
    then have pos: "0 < length filtered" by simp
    have "length (recommendedMovies s) < length (recommendedMovies s')"
      using r pos assms(2) by arith
    moreover have "length (recommendedMovies s') \<le> maxMovies"
      using r by arith
    moreover have "length (genres s') = length (genres s)"
      using g False by simp
    ultimately show ?thesis
      using assms(2,3) unfolding remaining_def by arith
  qed
qed

text \<open>Induction over the passes of the loop, and the two facts it gives: the loop ends, and
  what every completed pass preserves holds when the loop is left.\<close>

lemma recommend_loop_induct [consumes 0, case_names pass]:
  assumes "\<And>s. (\<And>s'. length (recommendedMovies s) < maxMovies \<Longrightarrow> length (genres s) < 20 \<Longrightarrow>
                     loop_body w uid s = Inr s' \<Longrightarrow> P s') \<Longrightarrow> P s"
  shows "P s"
proof (induction s rule: measure_induct_rule [where f = remaining])
  case (less s)
  show ?case
  proof (rule assms)
    fix s'
    assume "length (recommendedMovies s) < maxMovies" "length (genres s) < 20"
      "loop_body w uid s = Inr s'"
    from loop_body_decreases [OF this(3) this(1) this(2)] have "remaining s' < remaining s"
      by simp
    then show "P s'" by (rule less.IH)
  qed
qed

lemma recommend_loop_terminates: "\<exists>r. recommend_loop w uid s = Some r"
proof (induction s rule: recommend_loop_induct [where w = w and uid = uid])
  case (pass s)
  show ?case
  proof (cases "length (recommendedMovies s) < maxMovies \<and> length (genres s) < 20")
    case False
    then show ?thesis by (subst recommend_loop.simps) auto
  next
    case True
    show ?thesis
    proof (cases "loop_body w uid s")
      case (Inl e)
      with True show ?thesis by (subst recommend_loop.simps) simp
    next
      case (Inr s')
      from pass [OF _ _ Inr] True obtain r where "recommend_loop w uid s' = Some r" by blast
      with True Inr show ?thesis by (subst recommend_loop.simps) simp
    qed
  qed
qed

lemma recommend_loop_invariant:
  assumes "recommend_loop w uid s = Some (Inr t)" and "I s"
    and step: "\<And>a b. I a \<Longrightarrow> length (recommendedMovies a) < maxMovies \<Longrightarrow>
                 length (genres a) < 20 \<Longrightarrow> loop_body w uid a = Inr b \<Longrightarrow> I b"
  shows "I t \<and> \<not> (length (recommendedMovies t) < maxMovies \<and> length (genres t) < 20)"
  using assms(1,2)
proof (induction s rule: recommend_loop_induct [where w = w and uid = uid])
  case (pass s)
  show ?case
  proof (cases "length (recommendedMovies s) < maxMovies \<and> length (genres s) < 20")
    case False
    with pass.prems(1) have "t = s"
      by (subst (asm) recommend_loop.simps) auto
    with False pass.prems(2) show ?thesis by simp
  next
    case True
    show ?thesis
    proof (cases "loop_body w uid s")
      case (Inl e)
      with True pass.prems(1) show ?thesis
        by (subst (asm) recommend_loop.simps) simp
    next
      case (Inr s')
      with True pass.prems(1) have run: "recommend_loop w uid s' = Some (Inr t)"
        by (subst (asm) recommend_loop.simps) simp
      from True Inr pass.prems(2) have "I s'" by (auto intro: step)
      from pass.IH [OF _ _ Inr run this] True show ?thesis by simp
    qed
  qed
qed

lemma initial_state_simps:
  "recommendedMovies (initial_state gs) = []"
  "genres (initial_state gs) = filter truthy gs"
  "moviesPerGenre (initial_state gs) = 10"
  "pass (initial_state gs) = 0"
  "calls (initial_state gs) = []"
  by (simp_all add: initial_state_def)

lemma recommend_loop_final:
  assumes "recommend_loop w uid (initial_state gs) = Some (Inr t)"
  shows "pass t \<le> 40"
    and "length (recommendedMovies t) \<le> maxMovies"
    and "\<not> (length (recommendedMovies t) < maxMovies \<and> length (genres t) < 20)"
    and "\<forall>m \<in> set (recommendedMovies t). \<exists>k < pass t.
           (\<exists>g rs. discover w k g = Inr rs \<and> m \<in> set rs) \<and>
           item_id m \<notin> set (userMovieIds (store_at w k) uid)"
proof -
  let ?Q = "\<lambda>k m. (\<exists>g rs. discover w k g = Inr rs \<and> m \<in> set rs) \<and>
           item_id m \<notin> set (userMovieIds (store_at w k) uid)"
  let ?I = "\<lambda>s. pass s + remaining s \<le> 40 \<and> length (recommendedMovies s) \<le> maxMovies \<and>
                (\<forall>m \<in> set (recommendedMovies s). \<exists>k < pass s. ?Q k m)"
  have init: "?I (initial_state gs)"
    by (simp add: initial_state_simps remaining_def maxMovies_def)
  have fin: "?I t \<and> \<not> (length (recommendedMovies t) < maxMovies \<and> length (genres t) < 20)"
  proof (rule recommend_loop_invariant [where I = ?I, OF assms init])
    fix a b
    assume a: "?I a" and c: "length (recommendedMovies a) < maxMovies"
      "length (genres a) < 20" and body: "loop_body w uid a = Inr b"
    show "?I b"
    proof (intro conjI ballI)
      from loop_body_decreases [OF body c] loop_body_pass [OF body] a
      show "pass b + remaining b \<le> 40" by simp
      from body show "length (recommendedMovies b) \<le> maxMovies" by (rule loop_body_length)
    next
      fix m assume "m \<in> set (recommendedMovies b)"
      from loop_body_new_items [OF body this]
      show "\<exists>k < pass b. ?Q k m"
      proof
        assume "m \<in> set (recommendedMovies a)"
        with a obtain k where "k < pass a" "?Q k m" by blast
        with loop_body_pass [OF body] show ?thesis by (intro exI [of _ k]) simp
      next
        assume "?Q (pass a) m"
        with loop_body_pass [OF body] show ?thesis by (intro exI [of _ "pass a"]) simp
      qed
    qed
  qed
  from fin show "pass t \<le> 40" by simp
  from fin show "length (recommendedMovies t) \<le> maxMovies" by simp
  from fin show "\<not> (length (recommendedMovies t) < maxMovies \<and> length (genres t) < 20)"
    by simp
  from fin show "\<forall>m \<in> set (recommendedMovies t). \<exists>k < pass t. ?Q k m" by simp
qed

lemma recommend_Items:
  assumes "recommendMoviesByGenre w uid gs = Some (Json c (Items ms), cs)"
  obtains t where "recommend_loop w uid (initial_state gs) = Some (Inr t)"
    and "ms = recommendedMovies t" and "c = 200" and "cs = calls t" and "ms \<noteq> []"
  using assms unfolding recommendMoviesByGenre_def
  by (auto split: option.splits sum.splits prod.splits if_splits)

text \<open>A returned list is never empty and never longer than 20.\<close>

lemma recommend_at_most_maxMovies:
  assumes "recommendMoviesByGenre w uid gs = Some (Json c (Items ms), cs)"
  shows "length ms \<le> 20 \<and> ms \<noteq> [] \<and> c = 200"
proof -
  from assms obtain t where "recommend_loop w uid (initial_state gs) = Some (Inr t)"
    and "ms = recommendedMovies t" and "c = 200" and "ms \<noteq> []"
    by (rule recommend_Items)
  with recommend_loop_final(2) [OF this(1)] show ?thesis
    by (simp add: maxMovies_def)
qed

text \<open>The handler ends for every genre list, catalog and store: the loop does not run for
  ever.\<close>

lemma recommend_terminates: "\<exists>r. recommendMoviesByGenre w uid gs = Some r"
proof -
  from recommend_loop_terminates obtain r where
    "recommend_loop w uid (initial_state gs) = Some r" by blast
  then show ?thesis
    unfolding recommendMoviesByGenre_def by (cases r) (auto split: prod.splits)
qed

text \<open>When the loop is left through its condition, exactly 20 items are accumulated or the
  working genre list has at least 20 entries, and the body has run at most 40 times.\<close>

lemma recommend_loop_exit_at_bound:
  assumes "recommend_loop w uid (initial_state gs) = Some (Inr t)"
  shows "(length (recommendedMovies t) = 20 \<or> 20 \<le> length (genres t)) \<and> pass t \<le> 40"
proof
  from recommend_loop_final(2,3) [OF assms]
  show "length (recommendedMovies t) = 20 \<or> 20 \<le> length (genres t)"
    by (auto simp: maxMovies_def)
  from recommend_loop_final(1) [OF assms] show "pass t \<le> 40" .
qed

text \<open>With two genres whose requests return ten items each the loop is left through its
  condition after one pass, with 20 items.\<close>

lemma two_genres_exit_at_bound:
  "recommend_loop overlap_world 7 (initial_state [Tag action_tag, Tag adventure_tag]) =
     Some (Inr full_after_one_pass) \<and>
   length (recommendedMovies full_after_one_pass) = 20"
  by code_simp

text \<open>With no genre at all the loop is left in its second pass, by the TypeError.\<close>

lemma empty_genres_loop:
  "recommend_loop w uid (initial_state []) = Some (Inl (TypeError, []))"
proof -
  let ?s1 = "\<lparr>recommendedMovies = [], genres = [NullGenre], moviesPerGenre = 5,
              pass = Suc 0, calls = []\<rparr>"
  have first: "loop_body w uid (initial_state []) = Inr ?s1"
    by (simp add: loop_body_def initial_state_def filteredMovies_def Let_def)
  have "recommend_loop w uid ?s1 = Some (Inl (TypeError, []))"
    by (subst recommend_loop.simps) (simp add: loop_body_def maxMovies_def)
  then show ?thesis
    by (subst recommend_loop.simps) (simp add: first initial_state_simps maxMovies_def)
qed

text \<open>
  \<^bold>\<open>C6.\<close> The loop ends for every input (\<open>recommend_terminates\<close>), but not only at the
  two bounds. A user with the action tag alone, on a catalog that always returns the same
  ten items: the first pass takes the ten, the second finds nothing new and appends
  \<^verbatim>\<open>null\<close>; the loop condition holds with 10 items and 2 genre entries, and the third pass
  leaves the loop by the TypeError of \<^verbatim>\<open>JSON.parse(null).id\<close>. With an empty genre list the
  loop is left the same way, with no item and one entry, whatever the catalog and the store
  hold.
\<close>

theorem loop_left_below_both_bounds:
  "loop_body overlap_world 7 (initial_state [Tag action_tag]) = Inr after_first_pass \<and>
   loop_body overlap_world 7 after_first_pass = Inr stalled_after_two_passes \<and>
   length (recommendedMovies stalled_after_two_passes) = 10 \<and>
   length (genres stalled_after_two_passes) = 2 \<and>
   loop_body overlap_world 7 stalled_after_two_passes = Inl (TypeError, [''28'', ''28'', ''28'']) \<and>
   recommend_loop overlap_world 7 (initial_state [Tag action_tag]) =
     Some (Inl (TypeError, [''28'', ''28'', ''28''])) \<and>
   recommend_loop w uid (initial_state []) = Some (Inl (TypeError, []))"
proof (intro conjI)
  show "loop_body overlap_world 7 (initial_state [Tag action_tag]) = Inr after_first_pass"
    by code_simp
  show "loop_body overlap_world 7 after_first_pass = Inr stalled_after_two_passes"
    by code_simp
  show "length (recommendedMovies stalled_after_two_passes) = 10"
    by code_simp
  show "length (genres stalled_after_two_passes) = 2"
    by code_simp
  show "loop_body overlap_world 7 stalled_after_two_passes =
      Inl (TypeError, [''28'', ''28'', ''28''])"
    by code_simp
  show "recommend_loop overlap_world 7 (initial_state [Tag action_tag]) =
      Some (Inl (TypeError, [''28'', ''28'', ''28'']))"
    by code_simp
  show "recommend_loop w uid (initial_state []) = Some (Inl (TypeError, []))"
    by (rule empty_genres_loop)
qed

text \<open>
  \<^bold>\<open>C4.\<close> Every item of a list that \<^verbatim>\<open>recommendMoviesByGenre\<close> returns was taken in by some
  pass \<open>k\<close> of the loop (there are at most 40): a discovery request of that pass returned
  it, and its ID was not among the IDs of the user's saved items as the store was read in
  that pass.
\<close>

theorem recommended_not_saved:
  assumes "recommendMoviesByGenre w uid gs = Some (Json c (Items ms), cs)" and "m \<in> set ms"
  shows "\<exists>k < 40. (\<exists>g rs. discover w k g = Inr rs \<and> m \<in> set rs) \<and>
                  item_id m \<notin> set (userMovieIds (store_at w k) uid)"
proof -
  from assms(1) obtain t where run: "recommend_loop w uid (initial_state gs) = Some (Inr t)"
    and ms: "ms = recommendedMovies t"
    by (rule recommend_Items)
  from recommend_loop_final(4) [OF run] assms(2) ms obtain k where
    "k < pass t" "(\<exists>g rs. discover w k g = Inr rs \<and> m \<in> set rs) \<and>
                  item_id m \<notin> set (userMovieIds (store_at w k) uid)"
    by blast
  moreover from recommend_loop_final(1) [OF run] have "pass t \<le> 40" .
  ultimately show ?thesis by (intro exI [of _ k]) simp
qed

text \<open>User 7 has saved the item with ID 3 and has three genres with ten items each: the
  result is the first twenty of the other items, and the item with ID 4 is one of them.\<close>

theorem recommended_not_saved_witness:
  "recommendMoviesByGenre three_genre_world 7 [Tag action_tag, Tag adventure_tag, Tag comedy_tag] =
     Some (Json 200 (Items (catalog_range 1 3 @ catalog_range 4 22)), [''28'', ''12'', ''35'']) \<and>
   (\<exists>k < 40.
      (\<exists>g rs. discover three_genre_world k g = Inr rs \<and> hd (catalog_range 4 22) \<in> set rs) \<and>
      item_id (hd (catalog_range 4 22)) \<notin> set (userMovieIds (store_at three_genre_world k) 7))"
proof -
  have run: "recommendMoviesByGenre three_genre_world 7
               [Tag action_tag, Tag adventure_tag, Tag comedy_tag] =
     Some (Json 200 (Items (catalog_range 1 3 @ catalog_range 4 22)), [''28'', ''12'', ''35''])"
    by code_simp
  have mem: "hd (catalog_range 4 22) \<in> set (catalog_range 1 3 @ catalog_range 4 22)"
    by code_simp
  from recommended_not_saved [OF run mem] run show ?thesis by blast
qed

text \<open>
  \<^bold>\<open>C10.\<close> When 20 or more entries are left of the user's genre list after the falsy ones
  are dropped, \<^verbatim>\<open>recommendMoviesByGenre\<close> issues no discovery request and answers 400 with
  \<^verbatim>\<open>No recommended movies found\<close>, whatever the catalog and the store hold.
\<close>

theorem many_genres_no_recommendation:
  assumes "20 \<le> length (filter truthy gs)"
  shows "recommendMoviesByGenre w uid gs =
           Some (Json 400 (Message False ''No recommended movies found''), [])"
proof -
  from assms have "recommend_loop w uid (initial_state gs) = Some (Inr (initial_state gs))"
    by (subst recommend_loop.simps) (simp add: initial_state_simps)
  then show ?thesis
    by (simp add: recommendMoviesByGenre_def initial_state_simps)
qed

text \<open>A user with twenty times the action tag.\<close>

theorem many_genres_no_recommendation_witness:
  "20 \<le> length (filter truthy (replicate 20 (Tag action_tag))) \<and>
   recommendMoviesByGenre overlap_world 7 (replicate 20 (Tag action_tag)) =
     Some (Json 400 (Message False ''No recommended movies found''), [])"
proof -
  have h: "20 \<le> length (filter truthy (replicate 20 (Tag action_tag)))"
    by (simp add: action_tag_def genre_tag_def)
  from many_genres_no_recommendation [OF h] h show ?thesis by blast
qed

text \<open>
  \<^bold>\<open>C2.\<close> A user with an empty genre list. The first pass issues no request, accumulates
  nothing, appends \<^verbatim>\<open>null\<close> to the working list and sets the fetch count to 5. The loop
  condition still holds, and the second pass evaluates \<^verbatim>\<open>JSON.parse(null).id\<close>: the handler
  ends with a TypeError passed to \<^verbatim>\<open>next\<close>, not with the 400 response
  \<^verbatim>\<open>No recommended movies found\<close>. No discovery request is issued at all.
\<close>

theorem empty_genres_type_error:
  "loop_body w uid (initial_state []) =
     Inr \<lparr>recommendedMovies = [], genres = [NullGenre], moviesPerGenre = 5, pass = 1, calls = []\<rparr> \<and>
   recommendMoviesByGenre w uid [] = Some (Forward TypeError, [])"
proof
  let ?s1 = "\<lparr>recommendedMovies = [], genres = [NullGenre], moviesPerGenre = 5, pass = 1, calls = []\<rparr>"
  show first: "loop_body w uid (initial_state []) = Inr ?s1"
    by (simp add: loop_body_def initial_state_def filteredMovies_def Let_def)
  have "recommend_loop w uid ?s1 = Some (Inl (TypeError, []))"
    by (subst recommend_loop.simps) (simp add: loop_body_def maxMovies_def)
  then have "recommend_loop w uid (initial_state []) = Some (Inl (TypeError, []))"
    by (subst recommend_loop.simps) (simp add: first initial_state_simps maxMovies_def)
  then show "recommendMoviesByGenre w uid [] = Some (Forward TypeError, [])"
    by (simp add: recommendMoviesByGenre_def)
qed

text \<open>
  \<^bold>\<open>C5.\<close> The \<^verbatim>\<open>null\<close> entry that a pass without new candidates appends is not a filter
  that lets everything through: the pass that meets it throws a TypeError before the request
  for it is built. A user with the action tag alone, on a catalog that always returns the same
  ten items: the first pass takes the ten, the second finds nothing new and appends \<^verbatim>\<open>null\<close>,
  the third issues the request for the action tag and throws.
\<close>

theorem null_genre_aborts_pass:
  "loop_body w uid (s\<lparr>genres := [NullGenre]\<rparr>) = Inl (TypeError, calls s) \<and>
   recommendMoviesByGenre overlap_world 7 [Tag action_tag] =
     Some (Forward TypeError, [''28'', ''28'', ''28''])"
proof
  show "loop_body w uid (s\<lparr>genres := [NullGenre]\<rparr>) = Inl (TypeError, calls s)"
    by (simp add: loop_body_def)
  show "recommendMoviesByGenre overlap_world 7 [Tag action_tag] =
     Some (Forward TypeError, [''28'', ''28'', ''28''])"
    by code_simp
qed

text \<open>
  \<^bold>\<open>C1.\<close> The candidates of one pass are compared with the list accumulated before the
  pass, not with each other. A user with the action and the adventure tag, on a catalog
  that returns the same ten items for both: the result has 20 entries, and every ID occurs
  twice in it.
\<close>

theorem duplicate_ids_in_one_result:
  "recommendMoviesByGenre overlap_world 7 [Tag action_tag, Tag adventure_tag] =
     Some (Json 200 (Items (catalog_range 1 11 @ catalog_range 1 11)), [''28'', ''12'']) \<and>
   \<not> distinct (map item_id (catalog_range 1 11 @ catalog_range 1 11))"
  by code_simp

end
